theory Spec2Isabelle
  imports Complex_Main
begin


section \<open>Errors\<close>

text \<open>
  Every exception the modelled code raises is a value. \<open>Timeout\<close> is Python's
  \<open>TimeoutError\<close>, \<open>ChannelClosed\<close> is \<open>channel.ChannelClosedException\<close>,
  \<open>CommandFailed\<close> is \<open>tbot.machine.CommandFailedException(machine, command, output)\<close>.
  The exception holds a reference to the machine; the model records the machine's
  identity, its name. \<open>AssertionError\<close> is a failed \<open>assert\<close> of a self-test, and
  \<open>TestException\<close> the exception the power self-test raises in its failing run.
\<close>

datatype error =
    ChannelClosed
  | Timeout
  | RuntimeError string
  | IndexError
  | ValueError
  | CommandFailed string string string
  | AssertionError
  | TestException

abbreviation newline :: char where
  "newline \<equiv> CHR 0x0A"

section \<open>The channel\<close>

text \<open>
  The class \<open>tbot.machine.channel.Channel\<close> is not part of the examined sources; only
  its callers are. The definitions of this section are written from the contract of the
  specification (section 4.1).

  The environment is part of the state: \<open>transport\<close> is what the low-level reads of
  the connection will deliver, in order (\<open>Data s\<close>: the bytes \<open>s\<close>, a zero-length
  \<open>s\<close> being the end-of-file read; \<open>Silence\<close>: nothing within the time allowed;
  \<open>PeerClosed\<close>: the explicit close signal), and \<open>operator\<close> is what the human will
  do in each interactive session (the keys typed, and how many low-level reads are
  relayed to the terminal). \<open>calls\<close> records every call made on the channel, whether it
  returns or raises.
\<close>

datatype event = Data string | Silence | PeerClosed

datatype call =
    SendCall string
  | RecvCall "real option"
  | ReadUntilPromptCall string bool "real option" bool
  | CloseCall
  | AttachInteractiveCall

record channel =
  closed :: bool
  buffer :: string
  transport :: "event list"
  sent :: "string list"
  operator :: "(string \<times> nat) list"
  calls :: "call list"

text \<open>
  A regular-expression search is Python's \<open>re\<close> module, outside the repository: it is a
  parameter. \<open>rx p acc s = Some k\<close> says that the search for \<open>p\<close> in the accumulated
  text \<open>acc @ s\<close>, whose last chunk is \<open>s\<close>, finds a match ending \<open>k\<close> bytes into \<open>s\<close>.
\<close>

type_synonym regex_search = "string \<Rightarrow> string \<Rightarrow> string \<Rightarrow> nat option"

text \<open>Modelled from the spec: \<open>isopen()\<close> reflects the flag without performing I/O.\<close>

definition isopen :: "channel \<Rightarrow> bool" where
  "isopen c = (\<not> closed c)"

text \<open>Modelled from the spec: \<open>send(bytes)\<close> writes to the transport and fails with
  \<open>ChannelClosed\<close> on a closed channel.\<close>

definition send :: "string \<Rightarrow> channel \<Rightarrow> (error + unit) \<times> channel" where
  "send s c =
     (let c1 = c\<lparr>calls := calls c @ [SendCall s]\<rparr>
      in if closed c1 then (Inl ChannelClosed, c1)
         else (Inr (), c1\<lparr>sent := sent c1 @ [s]\<rparr>))"

text \<open>Modelled from the spec: one read of what is available. Buffered data is returned
  at once; otherwise the next low-level read decides: data, nothing in time
  (\<open>Timeout\<close>), or the peer's closure (a zero-length read or the close signal), which
  sets the flag.\<close>

definition fetch :: "channel \<Rightarrow> (error + string) \<times> channel" where
  "fetch c =
     (if closed c then (Inl ChannelClosed, c)
      else if buffer c \<noteq> [] then (Inr (buffer c), c\<lparr>buffer := []\<rparr>)
      else (case transport c of
              [] \<Rightarrow> (Inl Timeout, c)
            | Silence # t \<Rightarrow> (Inl Timeout, c\<lparr>transport := t\<rparr>)
            | PeerClosed # t \<Rightarrow> (Inl ChannelClosed, c\<lparr>closed := True, transport := t\<rparr>)
            | Data s # t \<Rightarrow>
                (if s = [] then (Inl ChannelClosed, c\<lparr>closed := True, transport := t\<rparr>)
                 else (Inr s, c\<lparr>transport := t\<rparr>))))"

text \<open>Modelled from the spec: \<open>recv(timeout)\<close>.\<close>

definition recv :: "real option \<Rightarrow> channel \<Rightarrow> (error + string) \<times> channel" where
  "recv timeout c = fetch (c\<lparr>calls := calls c @ [RecvCall timeout]\<rparr>)"

text \<open>Modelled from the spec: \<open>close()\<close> is idempotent and releases the transport.\<close>

definition close :: "channel \<Rightarrow> channel" where
  "close c = c\<lparr>closed := True, calls := calls c @ [CloseCall]\<rparr>"

text \<open>Modelled from the spec: the search for a literal prompt is a substring search.
  \<open>find_sub p xs\<close> is the first position at which \<open>p\<close> occurs in \<open>xs\<close>.\<close>

fun find_sub :: "string \<Rightarrow> string \<Rightarrow> nat option" where
  "find_sub p [] = (if p = [] then Some 0 else None)"
| "find_sub p (x # xs) =
     (if take (length p) (x # xs) = p then Some 0
      else map_option Suc (find_sub p xs))"

text \<open>Modelled from the spec: the prompt is searched in the whole accumulated text
  \<open>acc @ s\<close> after each chunk \<open>s\<close>, so that a prompt split across reads is found. The
  result is the end of the first match, counted from the start of the last chunk: a
  literal prompt is searched as a substring, a regular expression by the search given.\<close>

definition match_end :: "regex_search \<Rightarrow> string \<Rightarrow> bool \<Rightarrow> string \<Rightarrow> string \<Rightarrow> nat option" where
  "match_end rx prompt regex acc s =
     (if regex then rx prompt acc s
      else map_option (\<lambda>i. i + length prompt - length acc) (find_sub prompt (acc @ s)))"

definition pending :: "channel \<Rightarrow> nat" where
  "pending c = length (transport c) + (if buffer c = [] then 0 else 1)"

text \<open>Modelled from the spec: the loop of \<open>read_until_prompt\<close>. Each chunk received is
  appended to the accumulated text \<open>acc\<close> and the prompt is searched. On a match the text
  up to and including the match is returned and mirrored, and what follows the match
  stays buffered. Without a match the chunk is mirrored and the loop goes on. A failed
  read ends the loop with its error, the accumulated text going back to the buffer.
  \<open>out\<close> collects the bytes mirrored to the caller's sink: the second component of the
  result is what a sink, when the caller gave one, has received.\<close>

function read_loop ::
  "regex_search \<Rightarrow> string \<Rightarrow> bool \<Rightarrow> string \<Rightarrow> string \<Rightarrow> channel
     \<Rightarrow> (error + string) \<times> string \<times> channel" where
  "read_loop rx prompt regex acc out c =
     (case fetch c of
        (Inl e, c') \<Rightarrow> (Inl e, out, c'\<lparr>buffer := acc @ buffer c'\<rparr>)
      | (Inr s, c') \<Rightarrow>
          (case match_end rx prompt regex acc s of
             Some k \<Rightarrow> (Inr (acc @ take k s), out @ take k s, c'\<lparr>buffer := drop k s\<rparr>)
           | None \<Rightarrow> read_loop rx prompt regex (acc @ s) (out @ s) c'))"
  by pat_completeness auto

termination read_loop
  by (relation "measure (\<lambda>(rx, prompt, regex, acc, out, c). pending c)")
     (auto simp: fetch_def pending_def split: if_splits list.splits event.splits)

text \<open>Modelled from the spec: \<open>read_until_prompt(pattern, is_regex, timeout, sink)\<close>.
  \<open>stream\<close> says whether the caller gave a sink.\<close>

definition read_until_prompt ::
  "regex_search \<Rightarrow> string \<Rightarrow> bool \<Rightarrow> real option \<Rightarrow> bool \<Rightarrow> channel
     \<Rightarrow> (error + string) \<times> string \<times> channel" where
  "read_until_prompt rx prompt regex timeout stream c =
     read_loop rx prompt regex [] []
       (c\<lparr>calls := calls c @ [ReadUntilPromptCall prompt regex timeout stream]\<rparr>)"

text \<open>Modelled from the spec: \<open>attach_interactive()\<close> relays the operator's input to the
  channel and the channel's output to the terminal until the operator detaches, and
  returns without closing the channel.\<close>

definition attach_interactive :: "channel \<Rightarrow> (error + unit) \<times> channel" where
  "attach_interactive c =
     (let c1 = c\<lparr>calls := calls c @ [AttachInteractiveCall]\<rparr>
      in if closed c1 then (Inl ChannelClosed, c1)
         else (case operator c1 of
                 [] \<Rightarrow> (Inr (), c1\<lparr>buffer := []\<rparr>)
               | (typed, n) # rest \<Rightarrow>
                   (Inr (), c1\<lparr>buffer := [], transport := drop n (transport c1),
                       sent := sent c1 @ [typed], operator := rest\<rparr>)))"

section \<open>Python helpers\<close>

text \<open>\<open>s.split("\n", 1)\<close>: at most one split, at the first newline.\<close>

definition split1 :: "string \<Rightarrow> string list" where
  "split1 s =
     (if newline \<in> set s
      then [takeWhile (\<lambda>c. c \<noteq> newline) s, tl (dropWhile (\<lambda>c. c \<noteq> newline) s)]
      else [s])"

text \<open>\<open>xs[i]\<close> for \<open>i \<ge> 0\<close>: out of range raises \<open>IndexError\<close>.\<close>

definition index :: "'a list \<Rightarrow> nat \<Rightarrow> error + 'a" where
  "index xs i = (if i < length xs then Inr (xs ! i) else Inl IndexError)"

abbreviation squote :: char where
  "squote \<equiv> CHR 0x27"

abbreviation dquote :: char where
  "dquote \<equiv> CHR 0x22"

text \<open>\<open>shlex.quote\<close> of the standard library: a character that matches
  \<open>[^\w@%+=:,./-]\<close> (ASCII) is unsafe and every other one is safe; the empty string
  is written \<open>''\<close>, a string of safe characters is itself, and any other string is put
  in single quotes, each single quote of it replaced by \<open>'"'"'\<close>.\<close>

definition safe_chars :: string where
  "safe_chars =
     ''abcdefghijklmnopqrstuvwxyzABCDEFGHIJKLMNOPQRSTUVWXYZ0123456789_@%+=:,./-''"

definition safe :: "char \<Rightarrow> bool" where
  "safe c = (c \<in> set safe_chars)"

definition quote :: "string \<Rightarrow> string" where
  "quote s =
     (if s = [] then [squote, squote]
      else if list_all safe s then s
      else [squote] @ concat (map (\<lambda>c. if c = squote then [squote, dquote, squote, dquote, squote] else [c]) s)
           @ [squote])"

section \<open>Command arguments\<close>

text \<open>
  An argument of a command is a plain string, a special token or a path of the lab host.
  The classes \<open>special.Special\<close> and \<open>linux.Path\<close> are not part of the examined sources.
  A special token is represented by the text its \<open>resolve_string()\<close> returns. A path is
  represented by the components of an absolute path.
\<close>

datatype arg = Str string | Special string | Path "string list"

text \<open>Modelled from the spec: \<open>special.Raw\<close> is the token of a raw, unescaped fragment: it
  resolves to its own text.\<close>

definition Raw :: "string \<Rightarrow> arg" where
  "Raw s = Special s"

text \<open>Modelled from the spec: a path reference is rewritten relative to the mount root the
  boot loader sees, \<open>/tftpboot\<close>; a path outside the root has no such form
  (\<open>relative_to\<close> raises \<open>ValueError\<close>).\<close>

definition relative_to :: "string list \<Rightarrow> string \<Rightarrow> error + string list" where
  "relative_to p base =
     (case p of [] \<Rightarrow> Inl ValueError
      | d # rest \<Rightarrow> if d = base then Inr rest else Inl ValueError)"

fun join_path :: "string list \<Rightarrow> string" where
  "join_path [] = []"
| "join_path [d] = d"
| "join_path (d # e # rest) = d @ ''/'' @ join_path (e # rest)"

text \<open>Modelled from the spec: the text of a relative path, \<open>.\<close> for the empty one.\<close>

definition local_str :: "string list \<Rightarrow> string" where
  "local_str p = (if p = [] then ''.'' else join_path p)"

section \<open>The U-Boot machine\<close>

text \<open>The class attributes of \<open>UBootMachine\<close>, which a board's subclass overrides.\<close>

record uboot_class =
  autoboot_prompt :: "string option"
  autoboot_keys :: string
  prompt :: string

text \<open>The defaults of the class: the prompt \<open>Hit any key to stop autoboot:\s+\d+\s+\<close>,
  a newline as the keys, and \<open>U-Boot> \<close>.\<close>

definition UBootMachine :: uboot_class where
  "UBootMachine =
     \<lparr> autoboot_prompt =
         Some (''Hit any key to stop autoboot:'' @ [CHR 0x5C] @ ''s+'' @ [CHR 0x5C] @ ''d+''
               @ [CHR 0x5C] @ ''s+''),
       autoboot_keys = [newline],
       prompt = ''U-Boot> '' \<rparr>"

text \<open>A board, as the machine sees it: its name and, when it has a serial connection, its
  channel.\<close>

record board =
  board_name :: string
  board_channel :: "channel option"

text \<open>The machine shares the channel object with its board: the state of the channel
  after each operation is kept in the machine.\<close>

record uboot_machine =
  klass :: uboot_class
  machine_board :: string
  channel :: channel
  bootlog :: string

definition name :: "uboot_machine \<Rightarrow> string" where
  "name m = machine_board m @ ''-uboot''"

text \<open>The end of \<open>__init__\<close>: \<open>self.bootlog = boot_ev.getvalue().split("\n", 1)[1]\<close>.\<close>

definition set_bootlog ::
  "uboot_class \<Rightarrow> board \<Rightarrow> string \<Rightarrow> channel \<Rightarrow> (error + uboot_machine) \<times> board" where
  "set_bootlog k b getvalue ch =
     (case index (split1 getvalue) 1 of
        Inl e \<Rightarrow> (Inl e, b\<lparr>board_channel := Some ch\<rparr>)
      | Inr rest \<Rightarrow>
          (Inr \<lparr> klass = k, machine_board = board_name b, channel = ch, bootlog = rest \<rparr>,
           b\<lparr>board_channel := Some ch\<rparr>))"

text \<open>Modelled from the spec: \<open>tbot.log.EventIO\<close>, the observability sink (section 6), is
  not part of the examined sources. It is an append-only text. \<open>__init__\<close> builds it with
  a heading, and the heading is the first line of the sink: \<open>EventIO initial\<close> is the
  text the sink holds once it is built, and \<open>getvalue()\<close> returns this text followed by
  what has been written to the sink since.\<close>

definition EventIO :: "string \<Rightarrow> string" where
  "EventIO initial = initial @ [newline]"

text \<open>The heading \<open>__init__\<close> gives the sink:
  \<open>tbot.log.c("UBOOT").bold + f" ({self.name})"\<close>. \<open>label\<close> is the text of the styled
  string \<open>tbot.log.c("UBOOT").bold\<close>, whose class is not part of the examined sources: it
  is a parameter. \<open>self.name\<close> is the name of the board followed by \<open>-uboot\<close>.\<close>

definition boot_heading :: "string \<Rightarrow> board \<Rightarrow> string" where
  "boot_heading label b = label @ '' ('' @ (board_name b @ ''-uboot'') @ '')''"

text \<open>
  \<open>UBootMachine.__init__\<close>. The result is the machine or the exception raised, together
  with the board, whose channel the construction has used. The constructor of the base
  class, which is not part of the examined sources, is taken to store the board and
  nothing else. The sink \<open>boot_ev\<close> is built with its heading; what \<open>getvalue()\<close> returns
  at the end is the text of the sink as built, followed by what the read given the sink
  has mirrored. The other uses of the sink (its verbosity, its prefix,
  \<open>data["output"]\<close>) are presentation and leave no trace here.
\<close>

definition UBootMachine_init ::
  "regex_search \<Rightarrow> uboot_class \<Rightarrow> string \<Rightarrow> board \<Rightarrow> (error + uboot_machine) \<times> board" where
  "UBootMachine_init rx k label b =
     (case board_channel b of
        None \<Rightarrow> (Inl (RuntimeError ''{board!r} does not support a serial connection!''), b)
      | Some ch \<Rightarrow>
          (case autoboot_prompt k of
             Some ab \<Rightarrow>
               (case read_until_prompt rx ab True None True ch of
                  (Inl e, written, ch1) \<Rightarrow> (Inl e, b\<lparr>board_channel := Some ch1\<rparr>)
                | (Inr boot_log, written, ch1) \<Rightarrow>
                    (case send (autoboot_keys k) ch1 of
                       (Inl e, ch2) \<Rightarrow> (Inl e, b\<lparr>board_channel := Some ch2\<rparr>)
                     | (Inr u, ch2) \<Rightarrow>
                         (case read_until_prompt rx (prompt k) False None False ch2 of
                            (Inl e, w, ch3) \<Rightarrow> (Inl e, b\<lparr>board_channel := Some ch3\<rparr>)
                          | (Inr r, w, ch3) \<Rightarrow>
                              set_bootlog k b (EventIO (boot_heading label b) @ written) ch3)))
           | None \<Rightarrow>
               (case read_until_prompt rx (prompt k) False None True ch of
                  (Inl e, written, ch1) \<Rightarrow> (Inl e, b\<lparr>board_channel := Some ch1\<rparr>)
                | (Inr r, written, ch1) \<Rightarrow>
                    set_bootlog k b (EventIO (boot_heading label b) @ written) ch1)))"

text \<open>\<open>UBootMachine.destroy\<close>.\<close>

definition destroy :: "uboot_machine \<Rightarrow> uboot_machine" where
  "destroy m = m\<lparr>channel := close (channel m)\<rparr>"

text \<open>The loop of \<open>build_command\<close>: \<open>command\<close> grows by each argument and a space.\<close>

fun build_loop :: "string \<Rightarrow> arg list \<Rightarrow> error + string" where
  "build_loop command [] = Inr command"
| "build_loop command (Path p # args) =
     (case relative_to p ''tftpboot'' of
        Inl e \<Rightarrow> Inl e
      | Inr q \<Rightarrow> build_loop (command @ quote (local_str q) @ '' '') args)"
| "build_loop command (Special t # args) = build_loop (command @ t @ '' '') args"
| "build_loop command (Str s # args) = build_loop (command @ quote s @ '' '') args"

text \<open>\<open>UBootMachine.build_command\<close>: \<open>command[:-1]\<close> drops the last character, and
  leaves the empty string as it is.\<close>

definition build_command :: "arg list \<Rightarrow> error + string" where
  "build_command args =
     (case build_loop [] args of Inl e \<Rightarrow> Inl e | Inr command \<Rightarrow> Inr (butlast command))"

text \<open>\<open>Channel.raw_command_with_retval(command, prompt, stream)\<close> is not part of the
  examined sources, and the specification leaves its mechanism open: it is a parameter,
  a function of the command, the prompt and the channel that returns the return code
  and the output, or raises.\<close>

type_synonym raw_command_with_retval =
  "string \<Rightarrow> string \<Rightarrow> channel \<Rightarrow> (error + int \<times> string) \<times> channel"

text \<open>\<open>UBootMachine.exec\<close>.\<close>

definition exec ::
  "raw_command_with_retval \<Rightarrow> uboot_machine \<Rightarrow> arg list
     \<Rightarrow> (error + int \<times> string) \<times> uboot_machine" where
  "exec rcwr m args =
     (case build_command args of
        Inl e \<Rightarrow> (Inl e, m)
      | Inr command \<Rightarrow>
          (case rcwr command (prompt (klass m)) (channel m) of
             (Inl e, ch) \<Rightarrow> (Inl e, m\<lparr>channel := ch\<rparr>)
           | (Inr (ret, out), ch) \<Rightarrow> (Inr (ret, out), m\<lparr>channel := ch\<rparr>)))"

text \<open>\<open>UBootMachine.exec0\<close>.\<close>

definition exec0 ::
  "raw_command_with_retval \<Rightarrow> uboot_machine \<Rightarrow> arg list
     \<Rightarrow> (error + string) \<times> uboot_machine" where
  "exec0 rcwr m args =
     (case exec rcwr m args of
        (Inl e, m') \<Rightarrow> (Inl e, m')
      | (Inr (ret, out), m') \<Rightarrow>
          (if ret \<noteq> 0
           then (case build_command args of
                   Inl e \<Rightarrow> (Inl e, m')
                 | Inr command \<Rightarrow> (Inl (CommandFailed (name m') command out), m'))
           else (Inr out, m')))"

text \<open>\<open>UBootMachine.test\<close>.\<close>

definition test ::
  "raw_command_with_retval \<Rightarrow> uboot_machine \<Rightarrow> arg list
     \<Rightarrow> (error + bool) \<times> uboot_machine" where
  "test rcwr m args =
     (case exec rcwr m args of
        (Inl e, m') \<Rightarrow> (Inl e, m')
      | (Inr (ret, out), m') \<Rightarrow> (Inr (ret = 0), m'))"

text \<open>\<open>UBootMachine.env\<close>: the argument of \<open>echo\<close> is the raw token \<open>${var}\<close>, and
  \<open>[:-1]\<close> drops the last character of the output.\<close>

definition env ::
  "raw_command_with_retval \<Rightarrow> uboot_machine \<Rightarrow> string
     \<Rightarrow> (error + string) \<times> uboot_machine" where
  "env rcwr m var =
     (case exec0 rcwr m [Str ''echo'', Raw (''${'' @ var @ ''}'')] of
        (Inl e, m') \<Rightarrow> (Inl e, m')
      | (Inr out, m') \<Rightarrow> (Inr (butlast out), m'))"

text \<open>\<open>UBootMachine.interactive\<close>: only the timeout of the last read is turned into
  the \<open>RuntimeError\<close>; any other exception goes through as it is.\<close>

definition interactive ::
  "regex_search \<Rightarrow> uboot_machine \<Rightarrow> (error + unit) \<times> uboot_machine" where
  "interactive rx m =
     (case send ('' '' @ [newline]) (channel m) of
        (Inl e, c1) \<Rightarrow> (Inl e, m\<lparr>channel := c1\<rparr>)
      | (Inr u1, c1) \<Rightarrow>
          (case attach_interactive c1 of
             (Inl e, c2) \<Rightarrow> (Inl e, m\<lparr>channel := c2\<rparr>)
           | (Inr u2, c2) \<Rightarrow>
               (case send ('' '' @ [newline]) c2 of
                  (Inl e, c3) \<Rightarrow> (Inl e, m\<lparr>channel := c3\<rparr>)
                | (Inr u3, c3) \<Rightarrow>
                    (case read_until_prompt rx (prompt (klass m)) False (Some (1 / 2)) False c3 of
                       (Inl e, w, c4) \<Rightarrow>
                         (if e = Timeout
                          then (Inl (RuntimeError
                                  ''Failed to reacquire U-Boot after interactive session!''),
                                m\<lparr>channel := c4\<rparr>)
                          else (Inl e, m\<lparr>channel := c4\<rparr>))
                     | (Inr r, w, c4) \<Rightarrow> (Inr (), m\<lparr>channel := c4\<rparr>)))))"

section \<open>Notions the statements use\<close>



text \<open>A text with its first line removed: what follows the first newline.\<close>

definition without_first_line :: "string \<Rightarrow> string" where
  "without_first_line s = tl (dropWhile (\<lambda>c. c \<noteq> newline) s)"

section \<open>Lifetimes of a channel\<close>

text \<open>The calls a client can make on a channel, as values: a lifetime of a channel is a
  list of them.\<close>

datatype chan_op =
    OpSend string
  | OpRecv "real option"
  | OpReadUntilPrompt string bool "real option" bool
  | OpClose
  | OpAttachInteractive

text \<open>One call: the exception it raises, if any, and the channel after it.\<close>

fun perform :: "regex_search \<Rightarrow> chan_op \<Rightarrow> channel \<Rightarrow> error option \<times> channel" where
  "perform rx (OpSend s) c =
     (case send s c of (Inl e, c') \<Rightarrow> (Some e, c') | (Inr u, c') \<Rightarrow> (None, c'))"
| "perform rx (OpRecv t) c =
     (case recv t c of (Inl e, c') \<Rightarrow> (Some e, c') | (Inr s, c') \<Rightarrow> (None, c'))"
| "perform rx (OpReadUntilPrompt p re t st) c =
     (case read_until_prompt rx p re t st c of
        (Inl e, w, c') \<Rightarrow> (Some e, c')
      | (Inr r, w, c') \<Rightarrow> (None, c'))"
| "perform rx OpClose c = (None, close c)"
| "perform rx OpAttachInteractive c =
     (case attach_interactive c of (Inl e, c') \<Rightarrow> (Some e, c') | (Inr u, c') \<Rightarrow> (None, c'))"

fun run :: "regex_search \<Rightarrow> chan_op list \<Rightarrow> channel \<Rightarrow> channel" where
  "run rx [] c = c"
| "run rx (op # ops) c = run rx ops (snd (perform rx op c))"

text \<open>A channel observes closure in a call when the call is the local \<open>close()\<close> or when
  it raises \<open>ChannelClosed\<close>, as a read that detects the peer's closure does.\<close>

definition observes_closure :: "regex_search \<Rightarrow> chan_op \<Rightarrow> channel \<Rightarrow> bool" where
  "observes_closure rx op c = (op = OpClose \<or> fst (perform rx op c) = Some ChannelClosed)"

text \<open>
  \<open>selftest_machine_channel\<close>, from the assertion \<open>assert ch.isopen()\<close> on: the channel
  given is the one left by the \<open>raw_command\<close> of the first line, which is not part of the
  examined sources. A failed assertion is the error \<open>AssertionError\<close>.
\<close>

definition selftest_machine_channel :: "channel \<Rightarrow> bool \<Rightarrow> (error + unit) \<times> channel" where
  "selftest_machine_channel ch remote_close =
     (if \<not> isopen ch then (Inl AssertionError, ch)
      else
        (case (if remote_close
               then (case send (''exit'' @ [newline]) ch of
                       (Inl e, c1) \<Rightarrow> (Inl e, c1)
                     | (Inr u, c1) \<Rightarrow>
                         (case recv (Some 1) c1 of
                            (Inl e, c2) \<Rightarrow> (Inl e, c2)
                          | (Inr x, c2) \<Rightarrow>
                              (case recv (Some 1) c2 of
                                 (Inl e, c3) \<Rightarrow>
                                   (if e = ChannelClosed then (Inr (), c3) else (Inl e, c3))
                               | (Inr y, c3) \<Rightarrow> (Inl AssertionError, c3))))
               else (Inr (), close ch)) of
           (Inl e, c) \<Rightarrow> (Inl e, c)
         | (Inr u, c) \<Rightarrow>
             (if isopen c then (Inl AssertionError, c)
              else (case send [newline] c of
                      (Inr u, c4) \<Rightarrow> (Inl AssertionError, c4)
                    | (Inl e, c4) \<Rightarrow>
                        (if e \<noteq> ChannelClosed then (Inl e, c4)
                         else (case recv (Some 1) c4 of
                                 (Inr y, c5) \<Rightarrow> (Inl AssertionError, c5)
                               | (Inl e, c5) \<Rightarrow>
                                   (if e \<noteq> ChannelClosed then (Inl e, c5)
                                    else (Inr (), c5))))))))"

section \<open>The board scope\<close>

text \<open>
  The class \<open>board.Board\<close>, whose \<open>__enter__\<close> and \<open>__exit__\<close> make the scope, is not
  part of the examined sources; its subclass \<open>TestBoard\<close> and the self-test are. The
  scope is written from the specification (section 4.4). The lab host is a state of
  type \<open>'h\<close>; a board class gives the three operations a subclass defines.
\<close>

datatype lifecycle = PowerOn | Connect | Disconnect | PowerOff

record 'h board_class =
  poweron :: "'h \<Rightarrow> (error + unit) \<times> 'h"
  poweroff :: "'h \<Rightarrow> (error + unit) \<times> 'h"
  connect :: "'h \<Rightarrow> (error + channel) \<times> 'h"

text \<open>The state of a board object: the lab host, the live channel while a session is
  active, and the record of the lifecycle calls made so far.\<close>

record 'h board_state =
  lab :: 'h
  live :: "channel option"
  lifecycle_log :: "lifecycle list"

text \<open>Modelled from the spec: entering the scope invokes power-on, then connect, which
  produces the channel. A failed power-on leaves the board off. When connect fails after
  power-on has succeeded the board is powered off before the error goes on: no path
  skips power-off once power-on has succeeded.\<close>

definition enter :: "'h board_class \<Rightarrow> 'h board_state \<Rightarrow> (error + channel) \<times> 'h board_state" where
  "enter B s =
     (case poweron B (lab s) of
        (Inl e, h1) \<Rightarrow>
          (Inl e, s\<lparr>lab := h1, live := None, lifecycle_log := lifecycle_log s @ [PowerOn]\<rparr>)
      | (Inr u, h1) \<Rightarrow>
          (case connect B h1 of
             (Inl e, h2) \<Rightarrow>
               (case poweroff B h2 of
                  (r, h3) \<Rightarrow>
                    (Inl e, s\<lparr>lab := h3, live := None,
                              lifecycle_log := lifecycle_log s @ [PowerOn, Connect, PowerOff]\<rparr>))
           | (Inr ch, h2) \<Rightarrow>
               (Inr ch, s\<lparr>lab := h2, live := Some ch,
                          lifecycle_log := lifecycle_log s @ [PowerOn, Connect]\<rparr>)))"

text \<open>Modelled from the spec: leaving the scope invokes disconnect, which closes the
  channel, and then power-off. The channel given is the live one, as the body left it.\<close>

definition leave :: "'h board_class \<Rightarrow> channel \<Rightarrow> 'h board_state \<Rightarrow> (error + unit) \<times> channel \<times> 'h board_state" where
  "leave B ch s =
     (case poweroff B (lab s) of
        (r, h1) \<Rightarrow>
          (r, close ch,
           s\<lparr>lab := h1, live := None,
             lifecycle_log := lifecycle_log s @ [Disconnect, PowerOff]\<rparr>))"

text \<open>Modelled from the spec: a scope \<open>with board: body\<close>. The body works on the channel
  and the lab host and returns or raises; the scope is left in both cases. An exception
  raised while leaving replaces the one of the body, as it does in Python. The result
  holds the channel as the scope left it.\<close>

definition with_board ::
  "'h board_class \<Rightarrow> (channel \<Rightarrow> 'h \<Rightarrow> (error + 'a) \<times> channel \<times> 'h) \<Rightarrow> 'h board_state
     \<Rightarrow> (error + 'a) \<times> channel option \<times> 'h board_state" where
  "with_board B body s =
     (case enter B s of
        (Inl e, s1) \<Rightarrow> (Inl e, None, s1)
      | (Inr ch, s1) \<Rightarrow>
          (case body ch (lab s1) of
             (r, ch1, h1) \<Rightarrow>
               (case leave B ch1 (s1\<lparr>lab := h1, live := Some ch1\<rparr>) of
                  (Inl e, ch2, s2) \<Rightarrow> (Inl e, Some ch2, s2)
                | (Inr u, ch2, s2) \<Rightarrow> (r, Some ch2, s2))))"

text \<open>
  The lab host of the self-test (\<open>linux.LabHost\<close>, not part of the examined sources),
  reduced to what the test observes: the files it holds and its working directory.
  \<open>exec0("touch", p)\<close> creates the file; \<open>exec0("rm", p)\<close> removes it, and raises
  \<open>CommandFailed\<close> when it is not there, \<open>rm\<close> returning a code that is not zero.
\<close>

record labhost =
  files :: "string set"
  workdir :: string

definition power_path :: "labhost \<Rightarrow> string" where
  "power_path lh = workdir lh @ ''/selftest_power''"

definition exists_path :: "labhost \<Rightarrow> string \<Rightarrow> bool" where
  "exists_path lh p = (p \<in> files lh)"

definition touch :: "string \<Rightarrow> labhost \<Rightarrow> (error + unit) \<times> labhost" where
  "touch p lh = (Inr (), lh\<lparr>files := insert p (files lh)\<rparr>)"

definition rm :: "string \<Rightarrow> labhost \<Rightarrow> (error + unit) \<times> labhost" where
  "rm p lh =
     (if p \<in> files lh then (Inr (), lh\<lparr>files := files lh - {p}\<rparr>)
      else (Inl (CommandFailed ''lab'' (''rm '' @ quote p) []), lh))"

text \<open>\<open>TestBoard\<close>: \<open>poweron\<close> touches the power file and \<open>poweroff\<close> removes it;
  \<open>connect\<close> opens a new channel of the lab host, which is a parameter.\<close>

definition TestBoard ::
  "(labhost \<Rightarrow> (error + channel) \<times> labhost) \<Rightarrow> labhost board_class" where
  "TestBoard new_channel =
     \<lparr> poweron = (\<lambda>lh. touch (power_path lh) lh),
       poweroff = (\<lambda>lh. rm (power_path lh) lh),
       connect = new_channel \<rparr>"

text \<open>\<open>selftest_board_power\<close>: a normal run and a failing run of the scope, with the
  assertions on the power file. Each \<open>TestBoard(lh)\<close> is a new board object. The result
  holds, beside the lab host, the lifecycle records of the two boards.\<close>

definition selftest_board_power ::
  "(labhost \<Rightarrow> (error + channel) \<times> labhost) \<Rightarrow> labhost
     \<Rightarrow> (error + unit) \<times> labhost \<times> lifecycle list \<times> lifecycle list" where
  "selftest_board_power new_channel lh =
     (case (if exists_path lh (power_path lh) then rm (power_path lh) lh else (Inr (), lh)) of
        (Inl e, lh0) \<Rightarrow> (Inl e, lh0, [], [])
      | (Inr u, lh0) \<Rightarrow>
          (if exists_path lh0 (power_path lh0) then (Inl AssertionError, lh0, [], [])
           else
             (case with_board (TestBoard new_channel)
                     (\<lambda>ch h. (if exists_path h (power_path h) then Inr () else Inl AssertionError,
                               ch, h))
                     \<lparr> lab = lh0, live = None, lifecycle_log = [] \<rparr> of
                (Inl e, c1, s1) \<Rightarrow> (Inl e, lab s1, lifecycle_log s1, [])
              | (Inr u1, c1, s1) \<Rightarrow>
                  (if exists_path (lab s1) (power_path (lab s1))
                   then (Inl AssertionError, lab s1, lifecycle_log s1, [])
                   else
                     (case with_board (TestBoard new_channel)
                             (\<lambda>ch h. (if exists_path h (power_path h)
                                        then (Inl TestException :: error + unit)
                                        else Inl AssertionError, ch, h))
                             \<lparr> lab = lab s1, live = None, lifecycle_log = [] \<rparr> of
                        (r2, c2, s2) \<Rightarrow>
                          (if r2 = Inl TestException
                           then (if exists_path (lab s2) (power_path (lab s2))
                                 then (Inl AssertionError, lab s2, lifecycle_log s1,
                                       lifecycle_log s2)
                                 else (Inr (), lab s2, lifecycle_log s1, lifecycle_log s2))
                           else (case r2 of
                                   Inl e \<Rightarrow> (Inl e, lab s2, lifecycle_log s1, lifecycle_log s2)
                                 | Inr v \<Rightarrow>
                                     (Inl AssertionError, lab s2, lifecycle_log s1,
                                      lifecycle_log s2))))))))"

section \<open>Word splitting of the target shell\<close>

text \<open>
  The shell that parses the command line is outside the repository. \<open>shell_words\<close>
  follows the specification's words, "the target shell's own parsing", by the quoting
  rules of the POSIX shell, which the boot loader's shell shares for words: blanks
  separate words; a single quote starts a literal text that the next single quote ends;
  a double quote starts a text that the next double quote ends, in which a backslash
  escapes \<open>$\<close>, the backquote, the double quote and the backslash; outside quotes a
  backslash makes the next character literal. The model stops there: a line with an
  unquoted operator, expansion, pattern character or newline is not a list of plain
  words, and the result is \<open>None\<close>, as it is for an unclosed quote.
\<close>

abbreviation backslash :: char where
  "backslash \<equiv> CHR 0x5C"

abbreviation backquote :: char where
  "backquote \<equiv> CHR 0x60"

definition blank :: "char \<Rightarrow> bool" where
  "blank c = (c = CHR '' '' \<or> c = CHR 0x09)"

definition special :: "char \<Rightarrow> bool" where
  "special c = (c = newline \<or> c = backquote \<or> c \<in> set ''|&;<>()$*?[#~{}!'')"

datatype lex_state = Blank | InWord | InSingle | InDouble

fun shell_scan :: "lex_state \<Rightarrow> string \<Rightarrow> string \<Rightarrow> string list option" where
  "shell_scan Blank w [] = Some []"
| "shell_scan InWord w [] = Some [w]"
| "shell_scan InSingle w [] = None"
| "shell_scan InDouble w [] = None"
| "shell_scan Blank w (c # cs) =
     (if blank c then shell_scan Blank [] cs
      else if c = squote then shell_scan InSingle [] cs
      else if c = dquote then shell_scan InDouble [] cs
      else if c = backslash then
        (case cs of
           [] \<Rightarrow> None
         | d # ds \<Rightarrow> if d = newline then shell_scan Blank [] ds else shell_scan InWord [d] ds)
      else if special c then None
      else shell_scan InWord [c] cs)"
| "shell_scan InWord w (c # cs) =
     (if blank c then map_option (Cons w) (shell_scan Blank [] cs)
      else if c = squote then shell_scan InSingle w cs
      else if c = dquote then shell_scan InDouble w cs
      else if c = backslash then
        (case cs of
           [] \<Rightarrow> None
         | d # ds \<Rightarrow> if d = newline then shell_scan InWord w ds else shell_scan InWord (w @ [d]) ds)
      else if special c then None
      else shell_scan InWord (w @ [c]) cs)"
| "shell_scan InSingle w (c # cs) =
     (if c = squote then shell_scan InWord w cs else shell_scan InSingle (w @ [c]) cs)"
| "shell_scan InDouble w (c # cs) =
     (if c = dquote then shell_scan InWord w cs
      else if c = backslash then
        (case cs of
           [] \<Rightarrow> None
         | d # ds \<Rightarrow>
             if d = CHR ''$'' \<or> d = backquote \<or> d = dquote \<or> d = backslash
             then shell_scan InDouble (w @ [d]) ds
             else if d = newline then shell_scan InDouble w ds
             else shell_scan InDouble (w @ [c, d]) ds)
      else if c = CHR ''$'' \<or> c = backquote then None
      else shell_scan InDouble (w @ [c]) cs)"

definition shell_words :: "string \<Rightarrow> string list option" where
  "shell_words line = shell_scan Blank [] line"

text \<open>\<open>" ".join(words)\<close>: the words with single spaces between them.\<close>

fun join_spaces :: "string list \<Rightarrow> string" where
  "join_spaces [] = []"
| "join_spaces [x] = x"
| "join_spaces (x # y # rest) = x @ '' '' @ join_spaces (y # rest)"

text \<open>The characters Python's \<open>str.isspace\<close> accepts in ASCII.\<close>

definition whitespace :: "char \<Rightarrow> bool" where
  "whitespace c =
     (c \<in> set [CHR '' '', CHR 0x09, CHR 0x0A, CHR 0x0B, CHR 0x0C, CHR 0x0D,
                CHR 0x1C, CHR 0x1D, CHR 0x1E, CHR 0x1F])"

section \<open>Concrete inputs\<close>

definition example_rx :: regex_search where
  "example_rx p acc s = map_option (\<lambda>i. i + length p - length acc) (find_sub p (acc @ s))"

definition example_class :: uboot_class where
  "example_class = \<lparr> autoboot_prompt = Some ''ab: '', autoboot_keys = [newline], prompt = ''=> '' \<rparr>"

definition example_channel :: channel where
  "example_channel =
     \<lparr> closed = False, buffer = [],
       transport = [Data (''U'' @ [newline] @ ''ab: ''), Data ''=> ''],
       sent = [], operator = [], calls = [] \<rparr>"

definition example_board :: board where
  "example_board = \<lparr> board_name = ''b'', board_channel = Some example_channel \<rparr>"

definition example_channel_ready :: channel where
  "example_channel_ready =
     \<lparr> closed = False, buffer = [], transport = [], sent = [[newline]], operator = [],
       calls = [ReadUntilPromptCall ''ab: '' True None True, SendCall [newline],
                ReadUntilPromptCall ''=> '' False None False] \<rparr>"



definition example_raw_command :: raw_command_with_retval where
  "example_raw_command command p c =
     (case send (command @ [newline]) c of
        (Inl e, c') \<Rightarrow> (Inl e, c')
      | (Inr u, c') \<Rightarrow>
          (if command = ''false'' then (Inr (1, []), c')
           else (Inr (0, ''121212'' @ [newline]), c')))"

definition example_machine :: uboot_machine where
  "example_machine =
     \<lparr> klass = example_class, machine_board = ''b'', channel = example_channel_ready,
       bootlog = ''ab: '' \<rparr>"

definition example_machine_live :: uboot_machine where
  "example_machine_live =
     \<lparr> klass = example_class, machine_board = ''b'',
       channel = \<lparr> closed = False, buffer = [], transport = [Data ''x'', Data ''=> ''],
                   sent = [], operator = [(''help'' @ [newline], 1)], calls = [] \<rparr>,
       bootlog = [] \<rparr>"

definition example_channel_gone :: channel where
  "example_channel_gone =
     \<lparr> closed = False, buffer = [], transport = [PeerClosed, Data ''late''],
       sent = [], operator = [], calls = [] \<rparr>"

definition example_test_board :: "labhost board_class" where
  "example_test_board = TestBoard (\<lambda>h. (Inr example_channel, h))"

definition example_board_off :: "labhost board_state" where
  "example_board_off =
     \<lparr> lab = \<lparr> files = {}, workdir = ''/tmp'' \<rparr>, live = None, lifecycle_log = [] \<rparr>"

definition example_channel_prompted :: channel where
  "example_channel_prompted =
     \<lparr> closed = False, buffer = [], transport = [Data ''=> ''], sent = [], operator = [],
       calls = [ReadUntilPromptCall ''ab: '' True None True] \<rparr>"

definition example_channel_keyed :: channel where
  "example_channel_keyed =
     \<lparr> closed = False, buffer = [], transport = [Data ''=> ''], sent = [[newline]],
       operator = [],
       calls = [ReadUntilPromptCall ''ab: '' True None True, SendCall [newline]] \<rparr>"

definition example_channel_silent :: channel where
  "example_channel_silent =
     \<lparr> closed = False, buffer = [], transport = [Data ''U'', Silence], sent = [],
       operator = [], calls = [] \<rparr>"

section \<open>Properties of the channel\<close>

declare read_loop.simps [simp del]

lemma fetch_closed: "closed c \<Longrightarrow> fetch c = (Inl ChannelClosed, c)"
  by (simp add: fetch_def)

lemma fetch_frame:
  "fetch c = (r, c') \<Longrightarrow> calls c' = calls c \<and> sent c' = sent c \<and> operator c' = operator c"
  by (auto simp: fetch_def split: if_splits list.splits event.splits)

lemma fetch_closed_mono: "fetch c = (r, c') \<Longrightarrow> closed c \<Longrightarrow> closed c'"
  by (auto simp: fetch_def split: if_splits list.splits event.splits)

lemma fetch_error:
  "fetch c = (Inl e, c') \<Longrightarrow> (e = ChannelClosed \<and> closed c') \<or> (e = Timeout \<and> closed c' = closed c)"
  by (auto simp: fetch_def split: if_splits list.splits event.splits)

lemma fetch_ok: "fetch c = (Inr s, c') \<Longrightarrow> \<not> closed c \<and> \<not> closed c'"
  by (auto simp: fetch_def split: if_splits list.splits event.splits)

lemma read_loop_error:
  "fetch c = (Inl e, c1) \<Longrightarrow>
     read_loop rx p re acc out c = (Inl e, out, c1\<lparr>buffer := acc @ buffer c1\<rparr>)"
  by (simp add: read_loop.simps [of rx p re acc out c])

lemma read_loop_match:
  "fetch c = (Inr s, c1) \<Longrightarrow> match_end rx p re acc s = Some k \<Longrightarrow>
     read_loop rx p re acc out c = (Inr (acc @ take k s), out @ take k s, c1\<lparr>buffer := drop k s\<rparr>)"
  by (simp add: read_loop.simps [of rx p re acc out c])

lemma read_loop_again:
  "fetch c = (Inr s, c1) \<Longrightarrow> match_end rx p re acc s = None \<Longrightarrow>
     read_loop rx p re acc out c = read_loop rx p re (acc @ s) (out @ s) c1"
  by (simp add: read_loop.simps [of rx p re acc out c])

lemma read_loop_induct [case_names Error Match Again]:
  assumes "\<And>acc out c e c1. fetch c = (Inl e, c1) \<Longrightarrow> P acc out c"
    and "\<And>acc out c s c1 k.
           fetch c = (Inr s, c1) \<Longrightarrow> match_end rx p re acc s = Some k \<Longrightarrow> P acc out c"
    and "\<And>acc out c s c1.
           fetch c = (Inr s, c1) \<Longrightarrow> match_end rx p re acc s = None \<Longrightarrow>
           P (acc @ s) (out @ s) c1 \<Longrightarrow> P acc out c"
  shows "P acc out c"
  using assms
proof (induction rx p re acc out c rule: read_loop.induct)
  case (1 rx p re acc out c)
  obtain x c1 where f: "fetch c = (x, c1)" by (cases "fetch c")
  show ?case
  proof (cases x)
    case (Inl e)
    with f have "fetch c = (Inl e, c1)" by simp
    then show ?thesis by (rule "1.prems"(1))
  next
    case (Inr s)
    with f have fs: "fetch c = (Inr s, c1)" by simp
    show ?thesis
    proof (cases "match_end rx p re acc s")
      case None
      have "P (acc @ s) (out @ s) c1"
        by (rule "1.IH" [OF f [symmetric] Inr None]) (fact "1.prems")+
      with fs None show ?thesis by (rule "1.prems"(3))
    next
      case (Some k)
      with fs show ?thesis by (rule "1.prems"(2))
    qed
  qed
qed

lemma read_loop_frame:
  "read_loop rx p re acc out c = (r, w, c') \<Longrightarrow>
     calls c' = calls c \<and> sent c' = sent c \<and> operator c' = operator c"
proof (induction acc out c rule: read_loop_induct [where rx = rx and p = p and re = re])
  case (Error acc out c e c1)
  then show ?case by (auto simp: read_loop_error dest: fetch_frame)
next
  case (Match acc out c s c1 k)
  then show ?case by (auto simp: read_loop_match dest: fetch_frame)
next
  case (Again acc out c s c1)
  then show ?case by (auto simp: read_loop_again dest: fetch_frame)
qed

lemma read_loop_written:
  "read_loop rx p re acc out c = (Inr r, w, c') \<Longrightarrow> \<exists>t. r = acc @ t \<and> w = out @ t"
proof (induction acc out c rule: read_loop_induct [where rx = rx and p = p and re = re])
  case (Error acc out c e c1)
  then show ?case by (simp add: read_loop_error)
next
  case (Match acc out c s c1 k)
  then show ?case by (auto simp: read_loop_match)
next
  case (Again acc out c s c1)
  then show ?case by (auto simp: read_loop_again)
qed

lemma read_loop_open:
  "read_loop rx p re acc out c = (Inr r, w, c') \<Longrightarrow> \<not> closed c \<and> \<not> closed c'"
proof (induction acc out c rule: read_loop_induct [where rx = rx and p = p and re = re])
  case (Error acc out c e c1)
  then show ?case by (simp add: read_loop_error)
next
  case (Match acc out c s c1 k)
  then show ?case by (auto simp: read_loop_match dest: fetch_ok)
next
  case (Again acc out c s c1)
  then show ?case by (auto simp: read_loop_again dest: fetch_ok)
qed

lemma read_loop_closed_mono:
  "read_loop rx p re acc out c = (r, w, c') \<Longrightarrow> closed c \<Longrightarrow> closed c'"
proof (induction acc out c rule: read_loop_induct [where rx = rx and p = p and re = re])
  case (Error acc out c e c1)
  then show ?case by (auto simp: read_loop_error dest: fetch_closed_mono)
next
  case (Match acc out c s c1 k)
  then show ?case by (auto simp: read_loop_match dest: fetch_ok)
next
  case (Again acc out c s c1)
  then show ?case by (auto simp: read_loop_again dest: fetch_ok)
qed

lemma read_loop_raises:
  "read_loop rx p re acc out c = (Inl e, w, c') \<Longrightarrow>
     (e = ChannelClosed \<and> closed c') \<or> (e = Timeout \<and> \<not> closed c')"
proof (induction acc out c rule: read_loop_induct [where rx = rx and p = p and re = re])
  case (Error acc out c e1 c1)
  then show ?case by (auto simp: read_loop_error fetch_def split: if_splits list.splits event.splits)
next
  case (Match acc out c s c1 k)
  then show ?case by (auto simp: read_loop_match)
next
  case (Again acc out c s c1)
  then show ?case by (auto simp: read_loop_again)
qed


lemma read_until_prompt_frame:
  "read_until_prompt rx p re t st c = (r, w, c') \<Longrightarrow>
     calls c' = calls c @ [ReadUntilPromptCall p re t st] \<and> sent c' = sent c
       \<and> operator c' = operator c"
  by (auto simp: read_until_prompt_def dest: read_loop_frame)

lemma read_until_prompt_written:
  "read_until_prompt rx p re t st c = (Inr r, w, c') \<Longrightarrow> w = r"
  by (auto simp: read_until_prompt_def dest: read_loop_written)

lemma read_until_prompt_open:
  "read_until_prompt rx p re t st c = (Inr r, w, c') \<Longrightarrow> \<not> closed c \<and> \<not> closed c'"
  by (auto simp: read_until_prompt_def dest: read_loop_open)

lemma read_until_prompt_raises:
  "read_until_prompt rx p re t st c = (Inl e, w, c') \<Longrightarrow>
     (e = ChannelClosed \<and> closed c') \<or> (e = Timeout \<and> \<not> closed c')"
  by (auto simp: read_until_prompt_def dest: read_loop_raises)

lemma read_until_prompt_closed_mono:
  "read_until_prompt rx p re t st c = (r, w, c') \<Longrightarrow> closed c \<Longrightarrow> closed c'"
  by (auto simp: read_until_prompt_def dest: read_loop_closed_mono)

lemma send_ok:
  "send s c = (Inr u, c') \<Longrightarrow>
     calls c' = calls c @ [SendCall s] \<and> sent c' = sent c @ [s] \<and> \<not> closed c \<and> \<not> closed c'
       \<and> buffer c' = buffer c \<and> transport c' = transport c \<and> operator c' = operator c"
  by (auto simp: send_def Let_def split: if_splits)

lemma send_raises:
  "send s c = (Inl e, c') \<Longrightarrow>
     e = ChannelClosed \<and> calls c' = calls c @ [SendCall s] \<and> sent c' = sent c \<and> closed c'"
  by (auto simp: send_def Let_def split: if_splits)

lemma send_open: "\<not> closed c \<Longrightarrow> \<exists>c'. send s c = (Inr (), c')"
  by (simp add: send_def Let_def)




lemma attach_interactive_open:
  assumes "\<not> closed c"
  shows "\<exists>c'. attach_interactive c = (Inr (), c')
           \<and> calls c' = calls c @ [AttachInteractiveCall] \<and> \<not> closed c'"
proof (cases "operator c")
  case Nil
  with assms show ?thesis by (simp add: attach_interactive_def Let_def)
next
  case (Cons x rest)
  with assms show ?thesis by (cases x) (simp add: attach_interactive_def Let_def)
qed

section \<open>Closure of a channel\<close>

lemma send_closed: "closed c \<Longrightarrow> fst (send s c) = Inl ChannelClosed \<and> closed (snd (send s c))"
  by (simp add: send_def Let_def)

lemma recv_closed: "closed c \<Longrightarrow> fst (recv t c) = Inl ChannelClosed \<and> closed (snd (recv t c))"
  by (simp add: recv_def fetch_def)

lemma recv_raises:
  "recv t c = (Inl ChannelClosed, c') \<Longrightarrow> closed c'"
  by (auto simp: recv_def dest: fetch_error)

lemma attach_interactive_raises:
  "attach_interactive c = (Inl e, c') \<Longrightarrow> e = ChannelClosed \<and> closed c'"
  by (auto simp: attach_interactive_def Let_def split: if_splits list.splits prod.splits)

lemma perform_closed: "closed c \<Longrightarrow> closed (snd (perform rx op c))"
proof (cases op)
  case (OpSend s)
  then show "closed c \<Longrightarrow> ?thesis" using send_closed [of c s]
    by (cases "send s c") (auto split: sum.splits)
next
  case (OpRecv t)
  then show "closed c \<Longrightarrow> ?thesis" using recv_closed [of c t]
    by (cases "recv t c") (auto split: sum.splits)
next
  case (OpReadUntilPrompt p re t st)
  then show "closed c \<Longrightarrow> ?thesis"
    by (cases "read_until_prompt rx p re t st c")
       (auto split: sum.splits dest: read_until_prompt_closed_mono)
next
  case OpClose
  then show ?thesis by (simp add: close_def)
next
  case OpAttachInteractive
  then show "closed c \<Longrightarrow> ?thesis"
    by (cases "attach_interactive c") (auto simp: attach_interactive_def Let_def split: sum.splits)
qed

lemma run_closed: "closed c \<Longrightarrow> closed (run rx ops c)"
  by (induction ops arbitrary: c) (simp_all add: perform_closed)

lemma observes_closure_closed:
  assumes "observes_closure rx op c"
  shows "closed (snd (perform rx op c))"
proof (cases op)
  case (OpSend s)
  with assms show ?thesis
    by (cases "send s c") (auto simp: observes_closure_def split: sum.splits dest: send_raises)
next
  case (OpRecv t)
  with assms show ?thesis
    by (cases "recv t c") (auto simp: observes_closure_def split: sum.splits dest: recv_raises)
next
  case (OpReadUntilPrompt p re t st)
  with assms show ?thesis
    by (cases "read_until_prompt rx p re t st c")
       (auto simp: observes_closure_def split: sum.splits dest: read_until_prompt_raises)
next
  case OpClose
  then show ?thesis by (simp add: close_def)
next
  case OpAttachInteractive
  with assms show ?thesis
    by (cases "attach_interactive c")
       (auto simp: observes_closure_def split: sum.splits dest: attach_interactive_raises)
qed

section \<open>Properties of the construction\<close>

lemma set_bootlog_result:
  "set_bootlog k b v ch =
     (if newline \<in> set v
      then (Inr \<lparr> klass = k, machine_board = board_name b, channel = ch,
                  bootlog = tl (dropWhile (\<lambda>c. c \<noteq> newline) v) \<rparr>,
            b\<lparr>board_channel := Some ch\<rparr>)
      else (Inl IndexError, b\<lparr>board_channel := Some ch\<rparr>))"
  by (simp add: set_bootlog_def index_def split1_def)

lemma set_bootlog_sink:
  "set_bootlog k b (EventIO h @ v) ch =
     (Inr \<lparr> klass = k, machine_board = board_name b, channel = ch,
            bootlog = without_first_line (EventIO h @ v) \<rparr>,
      b\<lparr>board_channel := Some ch\<rparr>)"
  by (simp add: set_bootlog_result EventIO_def without_first_line_def)


text \<open>The construction on a board with a channel, step by step.\<close>

lemma init_steps:
  assumes "board_channel b = Some ch"
  shows "UBootMachine_init rx k label b =
     (case autoboot_prompt k of
        None \<Rightarrow>
          (case read_until_prompt rx (prompt k) False None True ch of
             (Inl e, w1, c1) \<Rightarrow> (Inl e, b\<lparr>board_channel := Some c1\<rparr>)
           | (Inr captured, w1, c1) \<Rightarrow>
               set_bootlog k b (EventIO (boot_heading label b) @ captured) c1)
      | Some ab \<Rightarrow>
          (case read_until_prompt rx ab True None True ch of
             (Inl e, w1, c1) \<Rightarrow> (Inl e, b\<lparr>board_channel := Some c1\<rparr>)
           | (Inr captured, w1, c1) \<Rightarrow>
               (case send (autoboot_keys k) c1 of
                  (Inl e, c2) \<Rightarrow> (Inl e, b\<lparr>board_channel := Some c2\<rparr>)
                | (Inr u, c2) \<Rightarrow>
                    (case read_until_prompt rx (prompt k) False None False c2 of
                       (Inl e, w3, c3) \<Rightarrow> (Inl e, b\<lparr>board_channel := Some c3\<rparr>)
                     | (Inr y, w3, c3) \<Rightarrow>
                         set_bootlog k b (EventIO (boot_heading label b) @ captured) c3))))"
proof (cases "autoboot_prompt k")
  case None
  obtain r1 w1 c1 where r1: "read_until_prompt rx (prompt k) False None True ch = (r1, w1, c1)"
    by (cases "read_until_prompt rx (prompt k) False None True ch")
  show ?thesis
  proof (cases r1)
    case (Inl e)
    with assms None r1 show ?thesis by (simp add: UBootMachine_init_def)
  next
    case (Inr x)
    with r1 have "w1 = x" by (auto dest: read_until_prompt_written)
    with assms None r1 Inr show ?thesis by (simp add: UBootMachine_init_def)
  qed
next
  case (Some ab)
  obtain r1 w1 c1 where r1: "read_until_prompt rx ab True None True ch = (r1, w1, c1)"
    by (cases "read_until_prompt rx ab True None True ch")
  show ?thesis
  proof (cases r1)
    case (Inl e)
    with assms Some r1 show ?thesis by (simp add: UBootMachine_init_def)
  next
    case (Inr x)
    with r1 have "w1 = x" by (auto dest: read_until_prompt_written)
    with assms Some r1 Inr show ?thesis by (simp add: UBootMachine_init_def)
  qed
qed



text \<open>The channel calls of the construction at a concrete board, evaluated: the run
  that reaches the prompt, and a run whose first read times out.\<close>

lemma example_steps:
  "read_until_prompt example_rx ''ab: '' True None True example_channel =
     (Inr (''U'' @ [newline] @ ''ab: ''), ''U'' @ [newline] @ ''ab: '', example_channel_prompted)"
  "send [newline] example_channel_prompted = (Inr (), example_channel_keyed)"
  "read_until_prompt example_rx ''=> '' False None False example_channel_keyed =
     (Inr ''=> '', ''=> '', example_channel_ready)"
  by code_simp+

lemma example_silent_step:
  "read_until_prompt example_rx ''ab: '' True None True example_channel_silent =
     (Inl Timeout, ''U'',
      \<lparr> closed = False, buffer = ''U'', transport = [], sent = [], operator = [],
        calls = [ReadUntilPromptCall ''ab: '' True None True] \<rparr>)"
  by code_simp

section \<open>Boot interception\<close>

text \<open>
  Claim C1. On a board with a channel, the construction of a \<open>UBootMachine\<close> performs
  exactly these calls on the channel, each on the channel as the call before left it:
  with \<open>autoboot_prompt\<close> set, one \<open>read_until_prompt\<close> of \<open>autoboot_prompt\<close> as a
  regular expression, then one \<open>send\<close> of \<open>autoboot_keys\<close>, then one
  \<open>read_until_prompt\<close> of the literal \<open>prompt\<close>; with \<open>autoboot_prompt\<close> unset, a single
  \<open>read_until_prompt\<close> of the literal \<open>prompt\<close>, and nothing is sent. The board's channel
  after the construction is the channel after the last of these calls. A call that
  raises ends the sequence there, and the construction raises the exception of that
  call; when every call returns, the construction returns the machine, on that channel.
\<close>

theorem init_call_sequence:
  assumes "board_channel b = Some ch"
    and "UBootMachine_init rx k label b = (r, b')"
  shows "case autoboot_prompt k of
           None \<Rightarrow>
             (case read_until_prompt rx (prompt k) False None True ch of
                (r1, w1, c1) \<Rightarrow>
                  board_channel b' = Some c1
                  \<and> calls c1 = calls ch @ [ReadUntilPromptCall (prompt k) False None True]
                  \<and> sent c1 = sent ch
                  \<and> (case r1 of
                        Inl e \<Rightarrow> r = Inl e
                      | Inr captured \<Rightarrow> (\<exists>m. r = Inr m \<and> channel m = c1)))
         | Some ab \<Rightarrow>
             (case read_until_prompt rx ab True None True ch of
                (Inl e, w1, c1) \<Rightarrow>
                  r = Inl e \<and> board_channel b' = Some c1
                  \<and> calls c1 = calls ch @ [ReadUntilPromptCall ab True None True]
                  \<and> sent c1 = sent ch
              | (Inr captured, w1, c1) \<Rightarrow>
                  (case send (autoboot_keys k) c1 of
                     (Inl e, c2) \<Rightarrow>
                       r = Inl e \<and> board_channel b' = Some c2
                       \<and> calls c2 = calls ch @
                           [ReadUntilPromptCall ab True None True, SendCall (autoboot_keys k)]
                       \<and> sent c2 = sent ch
                   | (Inr u, c2) \<Rightarrow>
                       (case read_until_prompt rx (prompt k) False None False c2 of
                          (r3, w3, c3) \<Rightarrow>
                            board_channel b' = Some c3
                            \<and> calls c3 = calls ch @
                                [ReadUntilPromptCall ab True None True,
                                 SendCall (autoboot_keys k),
                                 ReadUntilPromptCall (prompt k) False None False]
                            \<and> sent c3 = sent ch @ [autoboot_keys k]
                            \<and> (case r3 of
                                  Inl e \<Rightarrow> r = Inl e
                                | Inr y \<Rightarrow> (\<exists>m. r = Inr m \<and> channel m = c3)))))"
proof (cases "autoboot_prompt k")
  case None
  obtain r1 w1 c1 where r1: "read_until_prompt rx (prompt k) False None True ch = (r1, w1, c1)"
    by (cases "read_until_prompt rx (prompt k) False None True ch")
  note f1 = read_until_prompt_frame [OF r1]
  from assms(2) init_steps [OF assms(1), of rx k label] None r1
  have "board_channel b' = Some c1
      \<and> (case r1 of Inl e \<Rightarrow> r = Inl e | Inr captured \<Rightarrow> (\<exists>m. r = Inr m \<and> channel m = c1))"
    by (cases r1) (auto simp: set_bootlog_sink)
  with None r1 f1 show ?thesis by simp
next
  case (Some ab)
  obtain r1 w1 c1 where r1: "read_until_prompt rx ab True None True ch = (r1, w1, c1)"
    by (cases "read_until_prompt rx ab True None True ch")
  note f1 = read_until_prompt_frame [OF r1]
  note steps = init_steps [OF assms(1), of rx k label]
  show ?thesis
  proof (cases r1)
    case (Inl e)
    with assms(2) steps Some r1 f1 show ?thesis by auto
  next
    case captured: (Inr x)
    obtain r2 c2 where r2: "send (autoboot_keys k) c1 = (r2, c2)"
      by (cases "send (autoboot_keys k) c1")
    show ?thesis
    proof (cases r2)
      case (Inl e)
      with assms(2) steps Some r1 captured r2 f1 send_raises [of "autoboot_keys k" c1 e c2]
      show ?thesis by auto
    next
      case sent_ok: (Inr u)
      note f2 = send_ok [OF r2 [unfolded sent_ok]]
      obtain r3 w3 c3 where
        r3: "read_until_prompt rx (prompt k) False None False c2 = (r3, w3, c3)"
        by (cases "read_until_prompt rx (prompt k) False None False c2")
      note f3 = read_until_prompt_frame [OF r3]
      from assms(2) steps Some r1 captured r2 sent_ok r3
      have "board_channel b' = Some c3
          \<and> (case r3 of Inl e \<Rightarrow> r = Inl e | Inr y \<Rightarrow> (\<exists>m. r = Inr m \<and> channel m = c3))"
        by (cases r3) (auto simp: set_bootlog_sink)
      with Some r1 captured r2 sent_ok r3 f1 f2 f3 show ?thesis by simp
    qed
  qed
qed

theorem init_call_sequence_witness:
  "map_option calls
     (board_channel (snd (UBootMachine_init example_rx example_class ''UBOOT'' example_board))) =
     Some [ReadUntilPromptCall ''ab: '' True None True, SendCall [newline],
           ReadUntilPromptCall ''=> '' False None False]
   \<and> map_option sent
     (board_channel (snd (UBootMachine_init example_rx example_class ''UBOOT'' example_board))) =
     Some [[newline]]
   \<and> (\<exists>m. fst (UBootMachine_init example_rx example_class ''UBOOT'' example_board) = Inr m)
   \<and> fst (UBootMachine_init example_rx example_class ''UBOOT''
             \<lparr> board_name = ''b'', board_channel = Some example_channel_silent \<rparr>) = Inl Timeout
   \<and> map_option calls
     (board_channel (snd (UBootMachine_init example_rx example_class ''UBOOT''
             \<lparr> board_name = ''b'', board_channel = Some example_channel_silent \<rparr>))) =
     Some [ReadUntilPromptCall ''ab: '' True None True]"
proof -
  have start: "calls example_channel = []" "sent example_channel = []"
    "calls example_channel_silent = []" "sent example_channel_silent = []"
    by (simp_all add: example_channel_def example_channel_silent_def)
  have ready: "calls example_channel_ready =
      [ReadUntilPromptCall ''ab: '' True None True, SendCall [newline],
       ReadUntilPromptCall ''=> '' False None False]"
    "sent example_channel_ready = [[newline]]"
    by (simp_all add: example_channel_ready_def)
  have b: "board_channel example_board = Some example_channel"
    by (simp add: example_board_def)
  have s: "board_channel \<lparr> board_name = ''b'', board_channel = Some example_channel_silent \<rparr>
      = Some example_channel_silent"
    by simp
  show ?thesis
    using init_call_sequence [OF b prod.collapse [symmetric], of example_rx example_class "''UBOOT''"]
      init_call_sequence [OF s prod.collapse [symmetric], of example_rx example_class "''UBOOT''"]
    by (auto simp: example_class_def example_steps example_silent_step start ready)
qed





text \<open>
  Claim C9. The construction on a board whose channel is \<open>None\<close> raises the
  \<open>RuntimeError\<close> and produces no machine; no channel is touched: the board is as it
  was.
\<close>

theorem init_without_channel:
  "board_channel b = None \<Longrightarrow>
     UBootMachine_init rx k label b =
       (Inl (RuntimeError ''{board!r} does not support a serial connection!''), b)"
  by (simp add: UBootMachine_init_def)

theorem init_without_channel_witness:
  "UBootMachine_init example_rx example_class ''UBOOT''
     \<lparr> board_name = ''b'', board_channel = None \<rparr> =
     (Inl (RuntimeError ''{board!r} does not support a serial connection!''),
      \<lparr> board_name = ''b'', board_channel = None \<rparr>)"
  by (rule init_without_channel) simp





section \<open>Command protocol\<close>

lemma exec_name: "exec rcwr m args = (r, m') \<Longrightarrow> name m' = name m"
  by (auto simp: exec_def name_def split: sum.splits prod.splits)

lemma exec_built:
  "exec rcwr m args = (Inr x, m') \<Longrightarrow> \<exists>command. build_command args = Inr command"
  by (auto simp: exec_def split: sum.splits prod.splits)

lemma quote_echo: "quote ''echo'' = ''echo''"
  by (simp add: quote_def safe_def safe_chars_def)

text \<open>
  Claim C3. For every argument list: when \<open>exec\<close> returns the code zero, \<open>exec0\<close> returns
  exactly the output \<open>exec\<close> returned; when \<open>exec\<close> returns another code, \<open>exec0\<close> raises
  \<open>CommandFailed\<close> with the machine's identity, the string \<open>build_command\<close> builds from
  the arguments, and the output; an exception of \<open>exec\<close> goes through \<open>exec0\<close> as it is.
\<close>

theorem exec0_of_exec:
  "(exec rcwr m args = (Inr (ret, out), m') \<and> ret = 0 \<longrightarrow>
      exec0 rcwr m args = (Inr out, m'))
   \<and> (exec rcwr m args = (Inr (ret, out), m') \<and> ret \<noteq> 0 \<longrightarrow>
        (\<exists>command. build_command args = Inr command
           \<and> exec0 rcwr m args = (Inl (CommandFailed (name m) command out), m')))
   \<and> (exec rcwr m args = (Inl e, m') \<longrightarrow> exec0 rcwr m args = (Inl e, m'))"
proof (intro conjI impI)
  assume "exec rcwr m args = (Inr (ret, out), m') \<and> ret = 0"
  then show "exec0 rcwr m args = (Inr out, m')" by (simp add: exec0_def)
next
  assume a: "exec rcwr m args = (Inr (ret, out), m') \<and> ret \<noteq> 0"
  then obtain command where c: "build_command args = Inr command"
    using exec_built by blast
  from a have "name m' = name m" by (auto dest: exec_name)
  with a c show "\<exists>command. build_command args = Inr command
      \<and> exec0 rcwr m args = (Inl (CommandFailed (name m) command out), m')"
    by (simp add: exec0_def)
next
  assume "exec rcwr m args = (Inl e, m')"
  then show "exec0 rcwr m args = (Inl e, m')" by (simp add: exec0_def)
qed

text \<open>Two commands on a concrete machine, evaluated.\<close>

lemma example_exec_false:
  "exec example_raw_command example_machine [Str ''false''] =
     (Inr (1, []),
      example_machine\<lparr>channel := snd (send (''false'' @ [newline]) example_channel_ready)\<rparr>)"
  by code_simp

lemma example_exec_true:
  "exec example_raw_command example_machine [Str ''true''] =
     (Inr (0, ''121212'' @ [newline]),
      example_machine\<lparr>channel := snd (send (''true'' @ [newline]) example_channel_ready)\<rparr>)"
  by code_simp

theorem exec0_of_exec_witness:
  "exec0 example_raw_command example_machine [Str ''false''] =
     (Inl (CommandFailed ''b-uboot'' ''false'' []),
      example_machine\<lparr>channel := snd (send (''false'' @ [newline]) example_channel_ready)\<rparr>)
   \<and> exec0 example_raw_command example_machine [Str ''true''] =
     (Inr (''121212'' @ [newline]),
      example_machine\<lparr>channel := snd (send (''true'' @ [newline]) example_channel_ready)\<rparr>)"
  using exec0_of_exec [of example_raw_command example_machine "[Str ''false'']" 1 "[]"
      "example_machine\<lparr>channel := snd (send (''false'' @ [newline]) example_channel_ready)\<rparr>"]
    exec0_of_exec [of example_raw_command example_machine "[Str ''true'']" 0 "''121212'' @ [newline]"
      "example_machine\<lparr>channel := snd (send (''true'' @ [newline]) example_channel_ready)\<rparr>"]
    example_exec_false example_exec_true
  by (simp add: build_command_def quote_def safe_def safe_chars_def name_def example_machine_def)

text \<open>
  Claim C5. For every variable name, \<open>env\<close> runs \<open>exec0\<close> on the command
  \<open>echo ${name}\<close> and returns its output without the last character, which is the
  output without its trailing newline when it ends in one; an exception of \<open>exec0\<close>
  goes through. The command reaches the channel as written, with the machine's prompt.
\<close>

theorem env_echo_strips_last:
  "build_command [Str ''echo'', Raw (''${'' @ var @ ''}'')] = Inr (''echo ${'' @ var @ ''}'')
   \<and> (exec0 rcwr m [Str ''echo'', Raw (''${'' @ var @ ''}'')] = (Inr out, m') \<longrightarrow>
        env rcwr m var = (Inr (butlast out), m')
        \<and> (\<forall>v. out = v @ [newline] \<longrightarrow> env rcwr m var = (Inr v, m')))
   \<and> (exec0 rcwr m [Str ''echo'', Raw (''${'' @ var @ ''}'')] = (Inl e, m') \<longrightarrow>
        env rcwr m var = (Inl e, m'))
   \<and> (rcwr (''echo ${'' @ var @ ''}'') (prompt (klass m)) (channel m) = (Inr (0, out), ch) \<longrightarrow>
        env rcwr m var = (Inr (butlast out), m\<lparr>channel := ch\<rparr>))"
proof -
  define args where "args = [Str ''echo'', Raw (''${'' @ var @ ''}'')]"
  define cmd where "cmd = ''echo ${'' @ var @ ''}''"
  have b: "build_command args = Inr cmd"
    unfolding args_def cmd_def
    by (simp add: build_command_def Raw_def quote_echo butlast_append)
  have e: "env rcwr m var =
      (case exec0 rcwr m args of
         (Inl e, m') \<Rightarrow> (Inl e, m')
       | (Inr out, m') \<Rightarrow> (Inr (butlast out), m'))"
    unfolding args_def by (simp only: env_def)
  have "build_command args = Inr cmd
   \<and> (exec0 rcwr m args = (Inr out, m') \<longrightarrow>
        env rcwr m var = (Inr (butlast out), m')
        \<and> (\<forall>v. out = v @ [newline] \<longrightarrow> env rcwr m var = (Inr v, m')))
   \<and> (exec0 rcwr m args = (Inl e, m') \<longrightarrow> env rcwr m var = (Inl e, m'))
   \<and> (rcwr cmd (prompt (klass m)) (channel m) = (Inr (0, out), ch) \<longrightarrow>
        env rcwr m var = (Inr (butlast out), m\<lparr>channel := ch\<rparr>))"
    using b by (auto simp: e exec0_def exec_def)
  then show ?thesis unfolding args_def cmd_def .
qed

lemma example_env_run:
  "example_raw_command (''echo ${'' @ ''ipaddr'' @ ''}'') (prompt (klass example_machine))
     (channel example_machine) =
   (Inr (0, ''121212'' @ [newline]), snd (send (''echo ${ipaddr}'' @ [newline]) example_channel_ready))"
  by code_simp

theorem env_echo_strips_last_witness:
  "env example_raw_command example_machine ''ipaddr'' =
     (Inr ''121212'',
      example_machine\<lparr>channel := snd (send (''echo ${ipaddr}'' @ [newline]) example_channel_ready)\<rparr>)"
  using env_echo_strips_last [of "''ipaddr''" example_raw_command example_machine
      "''121212'' @ [newline]" _ _ "snd (send (''echo ${ipaddr}'' @ [newline]) example_channel_ready)"]
    example_env_run
  by simp

section \<open>Interactive hand-off\<close>

text \<open>
  Claim C6. On an open channel \<open>interactive\<close> makes exactly four calls: it sends the wake
  sequence, attaches the channel to the operator, sends the wake sequence again and
  reads until the literal prompt with the timeout \<open>0.5\<close>. When that read times out the
  result is the \<open>RuntimeError\<close> of the failed reacquisition, an error of its own and not a
  normal return; when the read returns, \<open>interactive\<close> returns normally and the channel
  is open.
\<close>

theorem interactive_handoff:
  assumes "isopen (channel m)"
    and "interactive rx m = (r, m')"
  shows "calls (channel m') = calls (channel m) @
           [SendCall ('' '' @ [newline]), AttachInteractiveCall, SendCall ('' '' @ [newline]),
            ReadUntilPromptCall (prompt (klass m)) False (Some (1 / 2)) False]
       \<and> (\<exists>c3 rd w c4.
             c3 = snd (send ('' '' @ [newline])
                    (snd (attach_interactive (snd (send ('' '' @ [newline]) (channel m))))))
           \<and> isopen c3
           \<and> read_until_prompt rx (prompt (klass m)) False (Some (1 / 2)) False c3 = (rd, w, c4)
           \<and> channel m' = c4
           \<and> (rd = Inl Timeout \<longrightarrow>
                r = Inl (RuntimeError ''Failed to reacquire U-Boot after interactive session!''))
           \<and> (rd = Inl ChannelClosed \<longrightarrow> r = Inl ChannelClosed)
           \<and> ((\<exists>x. rd = Inr x) \<longrightarrow> r = Inr () \<and> isopen (channel m')))
       \<and> (r = Inr () \<longrightarrow> isopen (channel m'))"
proof -
  let ?wake = "'' '' @ [newline]"
  obtain c1 where s1: "send ?wake (channel m) = (Inr (), c1)"
    using assms(1) send_open [of "channel m" ?wake] by (auto simp: isopen_def)
  note f1 = send_ok [OF s1]
  obtain c2 where a2: "attach_interactive c1 = (Inr (), c2)"
    and f2: "calls c2 = calls c1 @ [AttachInteractiveCall]" "\<not> closed c2"
    using f1 attach_interactive_open [of c1] by auto
  obtain c3 where s3: "send ?wake c2 = (Inr (), c3)"
    using f2 send_open [of c2 ?wake] by auto
  note f3 = send_ok [OF s3]
  obtain rd w c4 where r4:
    "read_until_prompt rx (prompt (klass m)) False (Some (1 / 2)) False c3 = (rd, w, c4)"
    by (cases "read_until_prompt rx (prompt (klass m)) False (Some (1 / 2)) False c3")
  note f4 = read_until_prompt_frame [OF r4]
  have c3: "c3 = snd (send ?wake (snd (attach_interactive (snd (send ?wake (channel m))))))"
    using s1 a2 s3 by simp
  have res: "(r, m') =
      (case rd of
         Inl e \<Rightarrow> (if e = Timeout
                    then Inl (RuntimeError ''Failed to reacquire U-Boot after interactive session!'')
                    else Inl e, m\<lparr>channel := c4\<rparr>)
       | Inr x \<Rightarrow> (Inr (), m\<lparr>channel := c4\<rparr>))"
    using assms(2) s1 a2 s3 r4 by (auto simp: interactive_def split: sum.splits)
  have m': "channel m' = c4" using res by (auto split: sum.splits if_splits)
  have calls: "calls (channel m') = calls (channel m) @
           [SendCall ?wake, AttachInteractiveCall, SendCall ?wake,
            ReadUntilPromptCall (prompt (klass m)) False (Some (1 / 2)) False]"
    using m' f1 f2 f3 f4 by simp
  have ok: "isopen (channel m')" if "rd = Inr x" for x
    using that r4 m' read_until_prompt_open [of rx _ False _ False c3 x w c4]
    by (simp add: isopen_def)
  have A: "rd = Inl Timeout \<longrightarrow>
      r = Inl (RuntimeError ''Failed to reacquire U-Boot after interactive session!'')"
    using res by auto
  have B: "rd = Inl ChannelClosed \<longrightarrow> r = Inl ChannelClosed"
    using res by auto
  have C: "(\<exists>x. rd = Inr x) \<longrightarrow> r = Inr () \<and> isopen (channel m')"
    using res ok by auto
  have D: "r = Inr () \<longrightarrow> isopen (channel m')"
    using res ok by (cases rd) (auto split: if_splits)
  have E: "isopen c3" using f3 by (simp add: isopen_def)
  show ?thesis using calls c3 E r4 m' A B C D by blast
qed

text \<open>A session that loses the prompt and one that finds it again, evaluated.\<close>

lemma example_interactive_results:
  "fst (interactive example_rx example_machine) =
     Inl (RuntimeError ''Failed to reacquire U-Boot after interactive session!'')
   \<and> fst (interactive example_rx example_machine_live) = Inr ()
   \<and> isopen (channel example_machine) \<and> isopen (channel example_machine_live)"
  by code_simp

theorem interactive_handoff_witness:
  "calls (channel (snd (interactive example_rx example_machine))) =
     calls (channel example_machine) @
       [SendCall ('' '' @ [newline]), AttachInteractiveCall, SendCall ('' '' @ [newline]),
        ReadUntilPromptCall (prompt (klass example_machine)) False (Some (1 / 2)) False]
   \<and> fst (interactive example_rx example_machine) =
       Inl (RuntimeError ''Failed to reacquire U-Boot after interactive session!'')
   \<and> fst (interactive example_rx example_machine_live) = Inr ()
   \<and> isopen (channel (snd (interactive example_rx example_machine_live)))"
  using interactive_handoff [OF _ prod.collapse [symmetric], of example_machine example_rx]
    interactive_handoff [OF _ prod.collapse [symmetric], of example_machine_live example_rx]
    example_interactive_results
  by simp

section \<open>Quoting\<close>

lemma safe_plain:
  "safe c \<Longrightarrow> \<not> blank c \<and> c \<noteq> squote \<and> c \<noteq> dquote \<and> c \<noteq> backslash \<and> \<not> special c
     \<and> \<not> whitespace c"
  unfolding safe_def safe_chars_def blank_def special_def whitespace_def
  by auto


text \<open>The text between the single quotes that \<open>quote\<close> writes.\<close>

lemma scan_single_quoted:
  "shell_scan InSingle w
     (concat (map (\<lambda>c. if c = squote then [squote, dquote, squote, dquote, squote] else [c]) s)
        @ squote # rest)
   = shell_scan InWord (w @ s) rest"
  by (induction s arbitrary: w) (simp_all add: blank_def)

lemma scan_safe_word:
  "list_all safe s \<Longrightarrow> shell_scan InWord w (s @ rest) = shell_scan InWord (w @ s) rest"
  by (induction s arbitrary: w) (simp_all add: safe_plain)

lemma scan_safe_start:
  assumes "list_all safe s" and "s \<noteq> []"
  shows "shell_scan Blank [] (s @ rest) = shell_scan InWord s rest"
proof (cases s)
  case Nil
  with assms show ?thesis by simp
next
  case (Cons c cs)
  with assms have "safe c" "list_all safe cs" by simp_all
  then show ?thesis using Cons scan_safe_word [of cs "[c]" rest] by (simp add: safe_plain)
qed

lemma scan_quote: "shell_scan Blank [] (quote a @ rest) = shell_scan InWord a rest"
proof (cases "a = []")
  case True
  then show ?thesis by (simp add: quote_def blank_def)
next
  case False
  show ?thesis
  proof (cases "list_all safe a")
    case True
    with False show ?thesis by (simp add: quote_def scan_safe_start)
  next
    case unsafe: False
    with False show ?thesis
      using scan_single_quoted [of "[]" a rest] by (simp add: quote_def blank_def)
  qed
qed

lemma quote_nonempty: "quote a \<noteq> []"
  by (simp add: quote_def)

lemma quote_last: "\<not> whitespace (last (quote a))"
proof (cases "a = []")
  case True
  then show ?thesis by (simp add: quote_def whitespace_def)
next
  case False
  show ?thesis
  proof (cases "list_all safe a")
    case True
    with False have "safe (last a)" by (simp add: list_all_iff)
    with True False show ?thesis by (simp add: quote_def safe_plain)
  next
    case unsafe: False
    with False show ?thesis by (simp add: quote_def whitespace_def)
  qed
qed

lemma build_loop_plain:
  "build_loop command (map Str args) =
     Inr (command @ concat (map (\<lambda>a. quote a @ '' '') args))"
  by (induction args arbitrary: command) simp_all

lemma butlast_joined:
  "butlast (concat (map (\<lambda>a. quote a @ '' '') args)) = join_spaces (map quote args)"
proof (induction args rule: induct_list012)
  case 1
  show ?case by simp
next
  case (2 a)
  show ?case by (simp add: butlast_append)
next
  case (3 a b rest)
  then show ?case by (simp add: butlast_append)
qed

lemma join_spaces_quote_nonempty: "join_spaces (quote y # ws) \<noteq> []"
  by (cases ws) (simp_all add: quote_nonempty)

lemma join_spaces_last:
  "args \<noteq> [] \<Longrightarrow> last (join_spaces (map quote args)) = last (quote (last args))"
  by (induction args rule: induct_list012) (simp_all add: join_spaces_quote_nonempty)

lemma scan_join_spaces:
  "shell_scan Blank [] (join_spaces (map quote args)) = Some args"
proof (induction args rule: induct_list012)
  case 1
  show ?case by simp
next
  case (2 a)
  show ?case using scan_quote [of a "[]"] by simp
next
  case (3 a b rest)
  have "shell_scan Blank [] (join_spaces (map quote (a # b # rest)))
      = shell_scan InWord a (CHR '' '' # join_spaces (map quote (b # rest)))"
    using scan_quote [of a "CHR '' '' # join_spaces (map quote (b # rest))"] by simp
  also have "\<dots> = map_option (Cons a) (shell_scan Blank [] (join_spaces (map quote (b # rest))))"
    by (simp add: blank_def)
  finally show ?case using 3 by simp
qed

text \<open>
  Claim C4. For every list of plain strings, whatever characters they hold,
  \<open>build_command\<close> returns the \<open>shlex.quote\<close> of each argument, joined with single
  spaces; the result has no trailing whitespace (it is empty for no argument, and ends
  in a character that is no whitespace otherwise); and the word splitting of the shell
  gives the original arguments back, one for one.
\<close>

theorem build_command_round_trip:
  "build_command (map Str args) = Inr (join_spaces (map quote args))
   \<and> (args = [] \<and> join_spaces (map quote args) = []
      \<or> args \<noteq> [] \<and> \<not> whitespace (last (join_spaces (map quote args))))
   \<and> shell_words (join_spaces (map quote args)) = Some args"
proof (intro conjI)
  show "build_command (map Str args) = Inr (join_spaces (map quote args))"
    by (simp add: build_command_def build_loop_plain butlast_joined)
  show "args = [] \<and> join_spaces (map quote args) = []
      \<or> args \<noteq> [] \<and> \<not> whitespace (last (join_spaces (map quote args)))"
    by (cases "args = []") (simp_all add: join_spaces_last quote_last)
  show "shell_words (join_spaces (map quote args)) = Some args"
    by (simp add: shell_words_def scan_join_spaces)
qed

theorem build_command_round_trip_witness:
  "build_command (map Str [''echo'', ''Hello World'', ''a'' @ [squote] @ ''b'', []]) =
     Inr (''echo '' @ [squote] @ ''Hello World'' @ [squote] @ '' ''
          @ [squote] @ ''a'' @ [squote, dquote, squote, dquote, squote] @ ''b'' @ [squote]
          @ '' '' @ [squote, squote])
   \<and> shell_words (''echo '' @ [squote] @ ''Hello World'' @ [squote] @ '' ''
          @ [squote] @ ''a'' @ [squote, dquote, squote, dquote, squote] @ ''b'' @ [squote]
          @ '' '' @ [squote, squote]) =
     Some [''echo'', ''Hello World'', ''a'' @ [squote] @ ''b'', []]"
  using build_command_round_trip [of "[''echo'', ''Hello World'', ''a'' @ [squote] @ ''b'', []]"]
  by (simp add: quote_def safe_def safe_chars_def)

section \<open>Closed channels stay closed\<close>

text \<open>
  Claim C8. Once a channel has observed closure, by a local \<open>close()\<close> or by a call that
  raised \<open>ChannelClosed\<close> on detecting the peer's closure, then after any further calls
  whatever every \<open>send\<close> and every \<open>recv\<close> raises \<open>ChannelClosed\<close> and \<open>isopen()\<close> is
  false.
\<close>

theorem closed_channel_sticky:
  assumes "observes_closure rx op c"
  shows "fst (send s (run rx ops (snd (perform rx op c)))) = Inl ChannelClosed
       \<and> fst (recv t (run rx ops (snd (perform rx op c)))) = Inl ChannelClosed
       \<and> \<not> isopen (run rx ops (snd (perform rx op c)))"
proof -
  have "closed (run rx ops (snd (perform rx op c)))"
    using assms by (intro run_closed observes_closure_closed)
  then show ?thesis by (simp add: send_closed recv_closed isopen_def)
qed

theorem closed_channel_sticky_witness:
  "(fst (send [newline]
      (run example_rx [OpRecv (Some 1), OpSend ''ls'', OpAttachInteractive]
         (snd (perform example_rx (OpRecv (Some 1)) example_channel_gone)))) = Inl ChannelClosed
    \<and> fst (recv (Some 1)
      (run example_rx [OpRecv (Some 1), OpSend ''ls'', OpAttachInteractive]
         (snd (perform example_rx (OpRecv (Some 1)) example_channel_gone)))) = Inl ChannelClosed
    \<and> \<not> isopen
      (run example_rx [OpRecv (Some 1), OpSend ''ls'', OpAttachInteractive]
         (snd (perform example_rx (OpRecv (Some 1)) example_channel_gone))))
   \<and> (fst (send [newline]
      (run example_rx [OpReadUntilPrompt ''=> '' False None False]
         (snd (perform example_rx OpClose example_channel)))) = Inl ChannelClosed
    \<and> fst (recv None
      (run example_rx [OpReadUntilPrompt ''=> '' False None False]
         (snd (perform example_rx OpClose example_channel)))) = Inl ChannelClosed
    \<and> \<not> isopen
      (run example_rx [OpReadUntilPrompt ''=> '' False None False]
         (snd (perform example_rx OpClose example_channel))))"
  by (rule conjI; rule closed_channel_sticky; code_simp)

text \<open>The assertions of \<open>selftest_machine_channel\<close> hold on the channel of this model:
  with a local close on every open channel, and with a remote close when the peer
  answers once and then closes.\<close>

lemma selftest_machine_channel_local_close:
  "isopen ch \<Longrightarrow> fst (selftest_machine_channel ch False) = Inr ()"
  by (simp add: selftest_machine_channel_def isopen_def close_def send_def recv_def fetch_def Let_def)

lemma selftest_machine_channel_remote_close:
  assumes "isopen ch" and "buffer ch = []" and "x \<noteq> []"
    and "transport ch = Data x # PeerClosed # rest"
  shows "fst (selftest_machine_channel ch True) = Inr ()"
  using assms
  by (simp add: selftest_machine_channel_def isopen_def send_def recv_def fetch_def Let_def)

section \<open>Power lifecycle\<close>

text \<open>
  Claim C7. A board scope whose power-on has succeeded makes exactly one \<open>poweron\<close> call
  and exactly one \<open>poweroff\<close> call, in that order, whatever the body does, returning or
  raising, and whether or not the connection is made: no path skips power-off. When
  the scope has been entered, the calls are power-on, connect, disconnect, power-off, the
  disconnect, which closes the channel, coming before power-off.
\<close>

theorem board_scope_power_lifecycle:
  assumes "with_board B body s = (r, ch, s')"
    and "fst (poweron B (lab s)) = Inr ()"
  shows "(\<exists>mid. lifecycle_log s' = lifecycle_log s @ [PowerOn] @ mid @ [PowerOff]
            \<and> PowerOn \<notin> set mid \<and> PowerOff \<notin> set mid)
       \<and> live s' = None
       \<and> ((\<exists>c. fst (connect B (snd (poweron B (lab s)))) = Inr c) \<longrightarrow>
            lifecycle_log s' = lifecycle_log s @ [PowerOn, Connect, Disconnect, PowerOff]
            \<and> (\<exists>c. ch = Some c \<and> \<not> isopen c))"
proof -
  obtain h1 where p: "poweron B (lab s) = (Inr (), h1)"
    using assms(2) by (cases "poweron B (lab s)") auto
  obtain rc h2 where c: "connect B h1 = (rc, h2)" by (cases "connect B h1")
  show ?thesis
  proof (cases rc)
    case (Inl e)
    obtain rp h3 where q: "poweroff B h2 = (rp, h3)" by (cases "poweroff B h2")
    from assms(1) p c q Inl
    have "lifecycle_log s' = lifecycle_log s @ [PowerOn] @ [Connect] @ [PowerOff]"
      and "live s' = None"
      by (auto simp: with_board_def enter_def)
    moreover have "PowerOn \<notin> set [Connect] \<and> PowerOff \<notin> set [Connect]" by simp
    moreover have "\<not> (\<exists>c. fst (connect B (snd (poweron B (lab s)))) = Inr c)"
      using p c Inl by simp
    ultimately show ?thesis by blast
  next
    case (Inr x)
    obtain rb ch1 h3 where b: "body x h2 = (rb, ch1, h3)" by (cases "body x h2")
    obtain rp h4 where q: "poweroff B h3 = (rp, h4)" by (cases "poweroff B h3")
    from assms(1) p c q b Inr
    have l: "lifecycle_log s' = lifecycle_log s @ [PowerOn, Connect, Disconnect, PowerOff]"
      and "live s' = None" and "ch = Some (close ch1)"
      by (auto simp: with_board_def enter_def leave_def split: sum.splits)
    moreover from l
    have "lifecycle_log s' = lifecycle_log s @ [PowerOn] @ [Connect, Disconnect] @ [PowerOff]"
      by simp
    moreover have "PowerOn \<notin> set [Connect, Disconnect] \<and> PowerOff \<notin> set [Connect, Disconnect]"
      by simp
    moreover have "\<not> isopen (close ch1)" by (simp add: isopen_def close_def)
    ultimately show ?thesis by blast
  qed
qed

theorem board_scope_power_lifecycle_witness:
  "lifecycle_log (snd (snd (with_board example_test_board
       (\<lambda>ch h. (Inl TestException :: error + unit, ch, h)) example_board_off))) =
     [PowerOn, Connect, Disconnect, PowerOff]
   \<and> lifecycle_log (snd (snd (with_board example_test_board
       (\<lambda>ch h. (Inr () :: error + unit, ch, h)) example_board_off))) =
     [PowerOn, Connect, Disconnect, PowerOff]"
  using board_scope_power_lifecycle [of example_test_board
      "\<lambda>ch h. (Inl TestException :: error + unit, ch, h)" example_board_off
      "fst (with_board example_test_board
         (\<lambda>ch h. (Inl TestException :: error + unit, ch, h)) example_board_off)"
      "fst (snd (with_board example_test_board
         (\<lambda>ch h. (Inl TestException :: error + unit, ch, h)) example_board_off))"
      "snd (snd (with_board example_test_board
         (\<lambda>ch h. (Inl TestException :: error + unit, ch, h)) example_board_off))"]
    board_scope_power_lifecycle [of example_test_board
      "\<lambda>ch h. (Inr () :: error + unit, ch, h)" example_board_off
      "fst (with_board example_test_board
         (\<lambda>ch h. (Inr () :: error + unit, ch, h)) example_board_off)"
      "fst (snd (with_board example_test_board
         (\<lambda>ch h. (Inr () :: error + unit, ch, h)) example_board_off))"
      "snd (snd (with_board example_test_board
         (\<lambda>ch h. (Inr () :: error + unit, ch, h)) example_board_off))"]
  by (simp add: example_test_board_def example_board_off_def TestBoard_def touch_def)

text \<open>\<open>selftest_board_power\<close> passes on this scope for every lab host whose
  \<open>new_channel\<close> returns a channel and leaves the host as it is: the power file is
  there inside each scope and gone after it, in the normal run and in the failing run,
  and each of the two boards records the same four calls.\<close>

lemma selftest_board_power_passes:
  assumes "\<And>h. \<exists>c. new_channel h = (Inr c, h)"
  shows "selftest_board_power new_channel lh =
           (Inr (), lh\<lparr>files := files lh - {power_path lh}\<rparr>,
            [PowerOn, Connect, Disconnect, PowerOff], [PowerOn, Connect, Disconnect, PowerOff])"
proof -
  define lh0 where "lh0 = lh\<lparr>files := files lh - {power_path lh}\<rparr>"
  define lh1 where "lh1 = lh0\<lparr>files := insert (power_path lh) (files lh0)\<rparr>"
  have pp: "power_path lh0 = power_path lh" "power_path lh1 = power_path lh"
    by (simp_all add: lh0_def lh1_def power_path_def)
  have start: "(if exists_path lh (power_path lh) then rm (power_path lh) lh else (Inr (), lh))
      = (Inr (), lh0)"
    by (auto simp: exists_path_def rm_def lh0_def)
  have off: "\<not> exists_path lh0 (power_path lh0)"
    by (simp add: exists_path_def lh0_def power_path_def)
  obtain c where nc: "new_channel lh1 = (Inr c, lh1)" using assms by blast
  have notin: "power_path lh \<notin> files lh0" by (simp add: lh0_def)
  have A: "poweron (TestBoard new_channel) lh0 = (Inr (), lh1)"
    by (simp add: TestBoard_def touch_def lh1_def pp)
  have B: "connect (TestBoard new_channel) lh1 = (Inr c, lh1)"
    by (simp add: TestBoard_def nc)
  have "files lh1 - {power_path lh} = files lh0"
    using notin by (auto simp: lh1_def)
  then have C: "poweroff (TestBoard new_channel) lh1 = (Inr (), lh0)"
    by (simp add: TestBoard_def rm_def pp) (simp add: lh1_def)
  have scope: "with_board (TestBoard new_channel) (\<lambda>ch h. (f h, ch, h))
                 \<lparr> lab = lh0, live = None, lifecycle_log = [] \<rparr>
      = (f lh1, Some (close c),
         \<lparr> lab = lh0, live = None, lifecycle_log = [PowerOn, Connect, Disconnect, PowerOff] \<rparr>)"
    for f :: "labhost \<Rightarrow> error + unit"
    by (simp add: with_board_def enter_def leave_def A B C)
  have on: "exists_path lh1 (power_path lh1)"
    unfolding exists_path_def pp by (simp add: lh1_def)
  have "selftest_board_power new_channel lh =
      (Inr (), lh0, [PowerOn, Connect, Disconnect, PowerOff],
       [PowerOn, Connect, Disconnect, PowerOff])"
    unfolding selftest_board_power_def start
    using off on by (simp add: scope)
  then show ?thesis by (simp add: lh0_def)
qed

end
